theory Spec2Isabelle
  imports Complex_Main
begin

section \<open>JavaScript values and exceptions\<close>

text \<open>
  The values that flow through \<^verbatim>\<open>src/app.js\<close>: what \<^verbatim>\<open>response.json()\<close> and
  \<^verbatim>\<open>JSON.parse\<close> produce, plus \<^verbatim>\<open>undefined\<close>, which optional chaining and missing
  properties yield. An object is an association list of its own properties.
\<close>

datatype js_value =
    JUndefined
  | JNull
  | JBool bool
  | JNumber real
  | JString string
  | JArray "js_value list"
  | JObject "(string \<times> js_value) list"

text \<open>
  The exceptions of the program. \<open>Error msg\<close> is \<^verbatim>\<open>new Error(msg)\<close>;
  \<open>ApiCallFailed n\<close> is \<^verbatim>\<open>new Error(`API call failed with status: ${n}`)\<close>;
  \<open>TypeError\<close> is what reading a property of \<^verbatim>\<open>null\<close> or \<^verbatim>\<open>undefined\<close>
  throws; \<open>SyntaxError\<close> is what \<^verbatim>\<open>JSON.parse\<close> and \<^verbatim>\<open>response.json()\<close> throw on
  malformed text; \<open>NetworkError\<close> is a rejected \<^verbatim>\<open>fetch\<close>; \<open>ReaderError\<close> is the
  event handed to \<^verbatim>\<open>reader.onerror\<close>; \<open>StoreWriteError\<close> is a rejected \<^verbatim>\<open>addDoc\<close>.
\<close>

datatype js_error =
    Error string
  | ApiCallFailed nat
  | TypeError
  | SyntaxError
  | NetworkError
  | ReaderError
  | StoreWriteError

text \<open>Truthiness, as \<^verbatim>\<open>if (v)\<close>, \<^verbatim>\<open>!v\<close> and \<^verbatim>\<open>filter(msg => msg.text)\<close> test it.\<close>

fun truthy :: "js_value \<Rightarrow> bool" where
  "truthy JUndefined = False"
| "truthy JNull = False"
| "truthy (JBool b) = b"
| "truthy (JNumber x) = (x \<noteq> 0)"
| "truthy (JString s) = (s \<noteq> [])"
| "truthy (JArray xs) = True"
| "truthy (JObject kvs) = True"

fun nullish :: "js_value \<Rightarrow> bool" where
  "nullish JUndefined = True"
| "nullish JNull = True"
| "nullish v = False"

fun typeof_number :: "js_value \<Rightarrow> bool" where
  "typeof_number (JNumber x) = True"
| "typeof_number v = False"

text \<open>
  \<^verbatim>\<open>v.name\<close> for the property names the program reads (\<^verbatim>\<open>candidates\<close>,
  \<^verbatim>\<open>content\<close>, \<^verbatim>\<open>parts\<close>, \<^verbatim>\<open>text\<close>, \<^verbatim>\<open>health_percentage\<close>), none of which is a
  built-in property of arrays, strings, numbers or booleans: reading it from
  \<^verbatim>\<open>null\<close> or \<^verbatim>\<open>undefined\<close> throws, an object gives its property or
  \<^verbatim>\<open>undefined\<close>, anything else gives \<^verbatim>\<open>undefined\<close>.
\<close>

fun get_prop :: "js_value \<Rightarrow> string \<Rightarrow> js_error + js_value" where
  "get_prop JUndefined name = Inl TypeError"
| "get_prop JNull name = Inl TypeError"
| "get_prop (JObject kvs) name =
     (case map_of kvs name of None \<Rightarrow> Inr JUndefined | Some v \<Rightarrow> Inr v)"
| "get_prop v name = Inr JUndefined"

text \<open>\<^verbatim>\<open>v[0]\<close> on a value that is neither \<^verbatim>\<open>null\<close> nor \<^verbatim>\<open>undefined\<close>.\<close>

fun index0 :: "js_value \<Rightarrow> js_value" where
  "index0 (JArray []) = JUndefined"
| "index0 (JArray (x # xs)) = x"
| "index0 (JString []) = JUndefined"
| "index0 (JString (c # cs)) = JString [c]"
| "index0 (JObject kvs) = (case map_of kvs ''0'' of None \<Rightarrow> JUndefined | Some v \<Rightarrow> v)"
| "index0 v = JUndefined"

text \<open>Optional chaining: \<^verbatim>\<open>v?.name\<close> and \<^verbatim>\<open>v?.[0]\<close>.\<close>

definition opt_prop :: "js_value \<Rightarrow> string \<Rightarrow> js_value" where
  "opt_prop v name =
     (if nullish v then JUndefined
      else (case get_prop v name of Inl e \<Rightarrow> JUndefined | Inr x \<Rightarrow> x))"

definition opt_index0 :: "js_value \<Rightarrow> js_value" where
  "opt_index0 v = (if nullish v then JUndefined else index0 v)"

section \<open>The world outside the program\<close>

text \<open>
  The network, the random number generator, the timer and the document store are
  not part of the source; the model threads a \<open>world\<close> through every effect. The
  outcomes the environment decides are oracles indexed by a counter (the n-th
  \<^verbatim>\<open>fetch\<close>, the n-th \<^verbatim>\<open>Math.random()\<close>, the n-th write); what the program did
  is logged (\<open>requests\<close>, \<open>sleeps\<close>, \<open>console\<close>).
\<close>

record response =
  ok :: bool
  status :: nat
  json :: "js_error + js_value"

datatype part = TextPart js_value | InlineData string js_value

record payload =
  contents :: "(string \<times> part list) list"
  responseSchema :: bool
  systemInstruction :: "string option"

text \<open>
  A document of a chat collection as the listener sees it, \<^verbatim>\<open>{id, role, text, timestamp}\<close>;
  the field \<^verbatim>\<open>text\<close> is \<open>text_field\<close> here, and it holds whatever value was saved.
\<close>

record doc =
  doc_id :: nat
  role :: string
  text_field :: js_value
  timestamp :: nat

record world =
  network :: "nat \<Rightarrow> js_error + response"
  requests :: "payload list"
  random :: "nat \<Rightarrow> real"
  draws :: nat
  sleeps :: "real list"
  collections :: "string \<Rightarrow> doc list"
  store_fault :: "nat \<Rightarrow> js_error option"
  writes :: nat
  clock :: nat
  console :: "(string \<times> js_error) list"

section \<open>retryWithBackoff\<close>

text \<open>
  \<^verbatim>\<open>const delay = Math.pow(2, i) * 1000 + Math.random() * 1000;\<close>
  \<^verbatim>\<open>await new Promise(resolve => setTimeout(resolve, delay));\<close>
  Numbers are modelled as reals; \<open>r\<close> is the value \<^verbatim>\<open>Math.random()\<close> returned.
\<close>

definition backoff_delay :: "nat \<Rightarrow> real \<Rightarrow> real" where
  "backoff_delay i r = 2 ^ i * 1000 + r * 1000"

definition Math_random :: "world \<Rightarrow> real \<times> world" where
  "Math_random w = (random w (draws w), w\<lparr>draws := draws w + 1\<rparr>)"

definition setTimeout :: "real \<Rightarrow> world \<Rightarrow> world" where
  "setTimeout delay w = w\<lparr>sleeps := sleeps w @ [delay]\<rparr>"

definition backoff :: "nat \<Rightarrow> world \<Rightarrow> world" where
  "backoff i w = (case Math_random w of (r, w') \<Rightarrow> setTimeout (backoff_delay i r) w')"

text \<open>
  The loop of \<^verbatim>\<open>retryWithBackoff(fn, maxRetries)\<close>, from iteration \<open>i\<close>. The
  operation \<open>fn\<close> is any effectful computation: it takes the world and returns the
  value it resolves with (\<open>Inr\<close>) or the error it rejects with (\<open>Inl\<close>), and the
  world it leaves. The result is \<open>Inl e\<close> for \<^verbatim>\<open>throw error\<close>, \<open>Inr (Some v)\<close> for
  \<^verbatim>\<open>return await fn()\<close>, and \<open>Inr None\<close> when the loop ends without returning (the
  function then returns \<^verbatim>\<open>undefined\<close>). The natural number next to the result
  counts the invocations of \<open>fn\<close>: one for each evaluation of \<open>fn w\<close>.
  \<open>maxRetries\<close> is an integer.
\<close>

function retry_loop ::
  "(world \<Rightarrow> ('e + 'a) \<times> world) \<Rightarrow> int \<Rightarrow> nat \<Rightarrow> world \<Rightarrow> (('e + 'a option) \<times> nat) \<times> world"
where
  "retry_loop fn maxRetries i w =
     (if int i < maxRetries then
        (case fn w of
           (Inr v, w') \<Rightarrow> ((Inr (Some v), 1), w')
         | (Inl error, w') \<Rightarrow>
             if int i = maxRetries - 1 then ((Inl error, 1), w')
             else (case retry_loop fn maxRetries (i + 1) (backoff i w') of
                     ((r, n), w'') \<Rightarrow> ((r, n + 1), w'')))
      else ((Inr None, 0), w))"
  by pat_completeness auto
termination
  by (relation "measure (\<lambda>(fn, maxRetries, i, w). nat (maxRetries - int i))") auto

definition retryWithBackoff ::
  "(world \<Rightarrow> ('e + 'a) \<times> world) \<Rightarrow> int \<Rightarrow> world \<Rightarrow> ('e + 'a option) \<times> world" where
  "retryWithBackoff fn maxRetries w =
     (case retry_loop fn maxRetries 0 w of ((r, n), w') \<Rightarrow> (r, w'))"

definition invocations :: "(world \<Rightarrow> ('e + 'a) \<times> world) \<Rightarrow> int \<Rightarrow> world \<Rightarrow> nat" where
  "invocations fn maxRetries w = snd (fst (retry_loop fn maxRetries 0 w))"

text \<open>
  The world in which attempt \<open>i\<close> starts when every earlier attempt failed: each
  failed attempt is followed by its backoff.
\<close>

fun attempt_world :: "(world \<Rightarrow> ('e + 'a) \<times> world) \<Rightarrow> nat \<Rightarrow> world \<Rightarrow> world" where
  "attempt_world fn 0 w = w"
| "attempt_world fn (Suc i) w = backoff i (snd (fn (attempt_world fn i w)))"

section \<open>The inference call\<close>

text \<open>
  \<^verbatim>\<open>fetch(apiUrl, {method: 'POST', ..., body: JSON.stringify(payload)})\<close>: the request is
  logged and the network decides the outcome.
\<close>

definition fetch :: "payload \<Rightarrow> world \<Rightarrow> (js_error + response) \<times> world" where
  "fetch p w = (network w (length (requests w)), w\<lparr>requests := requests w @ [p]\<rparr>)"

text \<open>
  \<^verbatim>\<open>apiCall\<close>, the same in \<^verbatim>\<open>handleScan\<close> and \<^verbatim>\<open>callGeminiApi\<close>: a rejected
  \<^verbatim>\<open>fetch\<close> and a rejected \<^verbatim>\<open>response.json()\<close> reject the call, a response that is
  not \<^verbatim>\<open>ok\<close> throws.
\<close>

definition apiCall :: "payload \<Rightarrow> world \<Rightarrow> (js_error + js_value) \<times> world" where
  "apiCall p w =
     (case fetch p w of
        (Inl e, w') \<Rightarrow> (Inl e, w')
      | (Inr response, w') \<Rightarrow>
          if \<not> ok response then (Inl (ApiCallFailed (status response)), w')
          else (json response, w'))"

text \<open>
  Whether an outcome of \<^verbatim>\<open>fetch\<close> makes \<^verbatim>\<open>apiCall\<close> fail: a rejected
  \<^verbatim>\<open>fetch\<close>, a status that is not \<^verbatim>\<open>ok\<close>, or a body that is not JSON.
\<close>

fun attempt_fails :: "js_error + response \<Rightarrow> bool" where
  "attempt_fails (Inl e) = True"
| "attempt_fails (Inr r) = (if ok r then isl (json r) else True)"

text \<open>\<^verbatim>\<open>result.candidates?.[0]?.content?.parts?.[0]?.text\<close>\<close>

definition candidate_text :: "js_value \<Rightarrow> js_error + js_value" where
  "candidate_text result =
     (case get_prop result ''candidates'' of
        Inl e \<Rightarrow> Inl e
      | Inr candidates \<Rightarrow>
          Inr (opt_prop (opt_index0 (opt_prop (opt_prop (opt_index0 candidates)
                 ''content'') ''parts'')) ''text''))"

text \<open>What \<^verbatim>\<open>await retryWithBackoff(apiCall)\<close> evaluates to when it does not throw.\<close>

fun awaited :: "js_value option \<Rightarrow> js_value" where
  "awaited None = JUndefined"
| "awaited (Some v) = v"

section \<open>PlantScanner\<close>

text \<open>
  A \<^verbatim>\<open>File\<close>: its \<^verbatim>\<open>type\<close> and what \<^verbatim>\<open>FileReader.readAsDataURL\<close> does with it
  (\<open>Inr\<close> the data URL handed to \<^verbatim>\<open>onload\<close>, \<open>Inl\<close> the event handed to
  \<^verbatim>\<open>onerror\<close>).
\<close>

record js_file =
  file_type :: string
  readAsDataURL :: "js_error + string"

text \<open>\<^verbatim>\<open>s.split(',')\<close>\<close>

fun split_comma :: "string \<Rightarrow> string list" where
  "split_comma [] = [] # []"
| "split_comma (c # cs) =
     (if c = CHR '','' then [] # split_comma cs
      else (case split_comma cs of [] \<Rightarrow> [c] # [] | x # xs \<Rightarrow> (c # x) # xs))"

text \<open>\<^verbatim>\<open>reader.onload = () => resolve(reader.result.split(',')[1])\<close>\<close>

definition fileToBase64 :: "js_file \<Rightarrow> js_error + js_value" where
  "fileToBase64 f =
     (case readAsDataURL f of
        Inl error \<Rightarrow> Inl error
      | Inr result \<Rightarrow>
          (case split_comma result of
             x # y # ys \<Rightarrow> Inr (JString y)
           | _ \<Rightarrow> Inr JUndefined))"

definition userPrompt :: string where
  "userPrompt = ''Analyze this image of a plant. Determine its health percentage (0-100), predict the specific disease, or state 'Healthy'. Provide 3 to 5 actionable home remedies using common household products like soap, vinegar, or baking soda. If the plant is healthy, provide general care tips instead of remedies. Respond ONLY in the requested JSON format.''"

definition analysis_failed :: string where
  "analysis_failed = ''Analysis failed. Please try a clearer picture or ask the bot for help.''"

text \<open>
  The state of the component: \<^verbatim>\<open>file\<close>, \<^verbatim>\<open>scanResult\<close>, \<^verbatim>\<open>loading\<close> and \<^verbatim>\<open>error\<close>
  (\<open>scan_file\<close>, \<open>scan_loading\<close> and \<open>scan_error\<close> here), \<open>None\<close> for \<^verbatim>\<open>null\<close>.
\<close>

record scanner =
  scan_file :: "js_file option"
  scanResult :: "js_value option"
  scan_loading :: bool
  scan_error :: "string option"

text \<open>
  Lines 138 to 147 of \<^verbatim>\<open>handleScan\<close>: extract the text, parse it, check the type
  of \<^verbatim>\<open>health_percentage\<close>. \<^verbatim>\<open>JSON.parse\<close> is the language's; it is a parameter,
  from the value it is given to the value it returns or the error it throws.
\<close>

definition handleScan_decode ::
  "(js_value \<Rightarrow> js_error + js_value) \<Rightarrow> js_value \<Rightarrow> js_error + js_value" where
  "handleScan_decode JSON_parse result =
     (case candidate_text result of
        Inl e \<Rightarrow> Inl e
      | Inr jsonText \<Rightarrow>
          if \<not> truthy jsonText then Inl (Error ''API response was empty or malformed.'')
          else (case JSON_parse jsonText of
                  Inl e \<Rightarrow> Inl e
                | Inr parsedResult \<Rightarrow>
                    (case get_prop parsedResult ''health_percentage'' of
                       Inl e \<Rightarrow> Inl e
                     | Inr hp \<Rightarrow>
                         if \<not> typeof_number hp
                         then Inl (Error ''Invalid health percentage received.'')
                         else Inr parsedResult)))"

text \<open>The \<^verbatim>\<open>try\<close> block of \<^verbatim>\<open>handleScan\<close>.\<close>

definition handleScan_try ::
  "(js_value \<Rightarrow> js_error + js_value) \<Rightarrow> js_file \<Rightarrow> world \<Rightarrow> (js_error + js_value) \<times> world" where
  "handleScan_try JSON_parse f w =
     (case fileToBase64 f of
        Inl e \<Rightarrow> (Inl e, w)
      | Inr base64ImageData \<Rightarrow>
          (let mimeType = (if file_type f \<noteq> [] then file_type f else ''image/png'');
               p = \<lparr>contents = [(''user'', [TextPart (JString userPrompt),
                                               InlineData mimeType base64ImageData])],
                    responseSchema = True, systemInstruction = None\<rparr>
           in (case retryWithBackoff (apiCall p) 5 w of
                 (Inl e, w') \<Rightarrow> (Inl e, w')
               | (Inr result, w') \<Rightarrow> (handleScan_decode JSON_parse (awaited result), w'))))"

definition handleScan ::
  "(js_value \<Rightarrow> js_error + js_value) \<Rightarrow> scanner \<Rightarrow> world \<Rightarrow> scanner \<times> world" where
  "handleScan JSON_parse st w =
     (case scan_file st of
        None \<Rightarrow> (st, w)
      | Some f \<Rightarrow>
          (let st1 = st\<lparr>scan_loading := True, scanResult := None, scan_error := None\<rparr>
           in (case handleScan_try JSON_parse f w of
                 (Inr parsedResult, w') \<Rightarrow>
                   (st1\<lparr>scanResult := Some parsedResult, scan_loading := False\<rparr>, w')
               | (Inl err, w') \<Rightarrow>
                   (st1\<lparr>scan_error := Some analysis_failed, scan_loading := False\<rparr>,
                    w'\<lparr>console := console w' @ [(''Scanning Error:'', err)]\<rparr>))))"

section \<open>The document store\<close>

text \<open>
  Firestore is a collaborator of the program, used through \<^verbatim>\<open>addDoc\<close> and a live
  query. \<^verbatim>\<open>addDoc(collection(db, path), {role, text, timestamp: serverTimestamp()})\<close>
  either is rejected by the store or adds a document with a fresh id and the
  server's time, which does not run backwards (here a logical clock that ticks at
  every accepted write).
\<close>

definition addDoc :: "string \<Rightarrow> string \<times> js_value \<Rightarrow> world \<Rightarrow> (js_error + unit) \<times> world" where
  "addDoc path d w =
     (case store_fault w (writes w) of
        Some e \<Rightarrow> (Inl e, w\<lparr>writes := writes w + 1\<rparr>)
      | None \<Rightarrow>
          (Inr (),
           w\<lparr>collections := (collections w)
                 (path := collections w path @
                    [\<lparr>doc_id = writes w, role = fst d, text_field = snd d,
                      timestamp = clock w\<rparr>]),
             writes := writes w + 1,
             clock := clock w + 1\<rparr>))"

text \<open>
  \<^verbatim>\<open>query(collection(db, path), orderBy('timestamp', 'asc'), limit(50))\<close>: Firestore
  orders the documents by the field, ascending, and \<^verbatim>\<open>limit(n)\<close> keeps the first
  \<open>n\<close> of that order (\<^verbatim>\<open>limitToLast(n)\<close> is the one that keeps the last \<open>n\<close>).
\<close>

definition query_orderBy_asc_limit :: "nat \<Rightarrow> doc list \<Rightarrow> doc list" where
  "query_orderBy_asc_limit n ds = take n (sort_key timestamp ds)"

text \<open>
  The snapshot listener:
  \<^verbatim>\<open>snapshot.docs.map(doc => ({id: doc.id, ...doc.data()})).filter(msg => msg.text)\<close>
\<close>

definition chatHistory :: "doc list \<Rightarrow> doc list" where
  "chatHistory ds = filter (\<lambda>msg. truthy (text_field msg)) (query_orderBy_asc_limit 50 ds)"

section \<open>GardeningBot\<close>

text \<open>
  The props and the state of the component: whether \<^verbatim>\<open>db\<close> is set, \<^verbatim>\<open>userId\<close>
  (\<open>None\<close> for \<^verbatim>\<open>null\<close>), \<^verbatim>\<open>messages\<close>, \<^verbatim>\<open>input\<close> and \<^verbatim>\<open>loading\<close>.
\<close>

record bot =
  db :: bool
  userId :: "string option"
  messages :: "doc list"
  input :: string
  loading :: bool

definition CHAT_COLLECTION :: "string \<Rightarrow> string \<Rightarrow> string" where
  "CHAT_COLLECTION appId uid = ''artifacts/'' @ appId @ ''/users/'' @ uid @ ''/plant_bot_chats''"

text \<open>
  The effect that subscribes (\<^verbatim>\<open>if (!db || !userId) return;\<close>) and what its listener
  does with a snapshot: \<^verbatim>\<open>setMessages(chatHistory)\<close>.
\<close>

definition onSnapshot :: "string \<Rightarrow> bot \<Rightarrow> world \<Rightarrow> bot" where
  "onSnapshot appId st w =
     (case userId st of
        None \<Rightarrow> st
      | Some uid \<Rightarrow>
          if db st \<and> uid \<noteq> []
          then st\<lparr>messages := chatHistory (collections w (CHAT_COLLECTION appId uid))\<rparr>
          else st)"

text \<open>
  \<^verbatim>\<open>String.prototype.trim\<close> on strings of code units below 256: the white space and
  line terminators of ECMAScript in that range are TAB, LF, VT, FF, CR, SP and NBSP.
\<close>

definition is_whitespace :: "char \<Rightarrow> bool" where
  "is_whitespace c = (of_char c \<in> {9, 10, 11, 12, 13, 32, 160 :: nat})"

definition trim :: "string \<Rightarrow> string" where
  "trim s = rev (dropWhile is_whitespace (rev (dropWhile is_whitespace s)))"

definition systemPrompt :: string where
  "systemPrompt = ''You are a friendly, knowledgeable, and practical home gardening expert and plant doctor. Your responses should be concise, encouraging, and focused on home remedies and simple, actionable care tips. Use common language and acknowledge the user's plant. When giving vacation tips, always prioritize simple, proven methods like wicking or bottle watering. Do not use external tools or markdown headers. Your only goal is to provide helpful, actionable advice.''"

definition apology :: string where
  "apology = ''Oops! I ran into a technical issue. The gardening bot is on a coffee break. Please try your question again.''"

text \<open>
  The \<^verbatim>\<open>catch\<close> block of \<^verbatim>\<open>callGeminiApi\<close>: log the error, save the apology. A
  rejected \<^verbatim>\<open>addDoc\<close> here leaves the function as its rejection.
\<close>

definition callGeminiApi_catch :: "string \<Rightarrow> js_error \<Rightarrow> world \<Rightarrow> (js_error + unit) \<times> world" where
  "callGeminiApi_catch path error w =
     addDoc path (''model'', JString apology)
       (w\<lparr>console := console w @ [(''Gemini API Error:'', error)]\<rparr>)"

text \<open>
  \<^verbatim>\<open>callGeminiApi(userMessage)\<close>. \<open>st\<close> is the state the handler closed over: the
  history sent is the last delivered \<open>messages\<close>.
\<close>

definition callGeminiApi :: "string \<Rightarrow> bot \<Rightarrow> string \<Rightarrow> world \<Rightarrow> (js_error + unit) \<times> world" where
  "callGeminiApi path st userMessage w =
     (let validMessages = filter (\<lambda>msg. truthy (text_field msg)) (messages st);
          chatHistoryForAPI =
            map (\<lambda>msg. (if role msg = ''user'' then ''user'' else ''model'',
                         [TextPart (text_field msg)])) validMessages;
          p = \<lparr>contents = chatHistoryForAPI @ [(''user'', [TextPart (JString userMessage)])],
               responseSchema = False, systemInstruction = Some systemPrompt\<rparr>
      in (case retryWithBackoff (apiCall p) 5 w of
            (Inl error, w1) \<Rightarrow> callGeminiApi_catch path error w1
          | (Inr result, w1) \<Rightarrow>
              (case candidate_text (awaited result) of
                 Inl error \<Rightarrow> callGeminiApi_catch path error w1
               | Inr botResponse \<Rightarrow>
                   if truthy botResponse then
                     (case addDoc path (''model'', botResponse) w1 of
                        (Inl error, w2) \<Rightarrow> callGeminiApi_catch path error w2
                      | (Inr u, w2) \<Rightarrow> (Inr (), w2))
                   else (Inr (), w1))))"

text \<open>
  \<^verbatim>\<open>handleSend\<close>. The result is \<open>Inl e\<close> when the handler's promise rejects with
  \<open>e\<close>, \<open>Inr ()\<close> when it resolves.
\<close>

definition handleSend :: "string \<Rightarrow> bot \<Rightarrow> world \<Rightarrow> (js_error + unit) \<times> bot \<times> world" where
  "handleSend appId st w =
     (case userId st of
        None \<Rightarrow> (Inr (), st, w)
      | Some uid \<Rightarrow>
          if trim (input st) = [] \<or> loading st \<or> \<not> db st \<or> uid = [] then (Inr (), st, w)
          else
            (let userMessage = trim (input st);
                 st1 = st\<lparr>input := [], loading := True\<rparr>;
                 path = CHAT_COLLECTION appId uid
             in (case addDoc path (''user'', JString userMessage) w of
                   (Inl e, w1) \<Rightarrow> (Inl e, st1, w1)
                 | (Inr u, w1) \<Rightarrow>
                     (case callGeminiApi path st userMessage w1 of
                        (Inl e, w2) \<Rightarrow> (Inl e, st1, w2)
                      | (Inr u', w2) \<Rightarrow> (Inr (), st1\<lparr>loading := False\<rparr>, w2)))))"

section \<open>Concrete scenarios\<close>

text \<open>
  Worlds and inputs on which the statements below are exercised. In \<open>quiet_world\<close>
  nothing has happened yet, the store accepts every write and \<^verbatim>\<open>Math.random()\<close>
  always returns one half; the network behaves as the script says.
\<close>

definition quiet_world :: "(nat \<Rightarrow> js_error + response) \<Rightarrow> world" where
  "quiet_world net =
     \<lparr>network = net, requests = [], random = (\<lambda>n. 1 / 2), draws = 0, sleeps = [],
      collections = (\<lambda>path. []), store_fault = (\<lambda>n. None), writes = 0, clock = 0,
      console = []\<rparr>"

definition net_down :: "nat \<Rightarrow> js_error + response" where
  "net_down n = Inl NetworkError"

definition net_recovers :: "nat \<Rightarrow> js_value \<Rightarrow> nat \<Rightarrow> js_error + response" where
  "net_recovers k body n =
     (if n < k then Inr \<lparr>ok = False, status = 503, json = Inl SyntaxError\<rparr>
      else Inr \<lparr>ok = True, status = 200, json = Inr body\<rparr>)"

definition net_failing :: "nat \<Rightarrow> js_error + response" where
  "net_failing n = Inr \<lparr>ok = False, status = 500 + n, json = Inl SyntaxError\<rparr>"

definition ping :: payload where
  "ping = \<lparr>contents = [(''user'', [TextPart (JString ''ping'')])], responseSchema = False,
           systemInstruction = None\<rparr>"

text \<open>An envelope whose first candidate carries the text \<open>t\<close>.\<close>

definition envelope :: "js_value \<Rightarrow> js_value" where
  "envelope t =
     JObject [(''candidates'',
       JArray [JObject [(''content'', JObject [(''parts'', JArray [JObject [(''text'', t)]])])]])]"

text \<open>Files: one the reader cannot read, one it reads.\<close>

definition unreadable :: js_file where
  "unreadable = \<lparr>file_type = ''image/jpeg'', readAsDataURL = Inl ReaderError\<rparr>"

definition photo :: js_file where
  "photo = \<lparr>file_type = [], readAsDataURL = Inr ''data:image/png;base64,iVBORw0KGgo=''\<rparr>"

definition scanner_with :: "js_file \<Rightarrow> scanner" where
  "scanner_with f = \<lparr>scan_file = Some f, scanResult = None, scan_loading = False,
                     scan_error = None\<rparr>"

text \<open>
  Four texts a model may answer with and the values \<^verbatim>\<open>JSON.parse\<close> gives for them;
  \<open>JSON_parse_table\<close> is \<^verbatim>\<open>JSON.parse\<close> on these texts and throws on anything else.
\<close>

definition leaf_blight_text :: string where
  \<open>leaf_blight_text = ''{"health_percentage": 72, "predicted_disease": "Leaf Blight", "home_remedies": ["Status: early blight", "Spray soapy water", "Remove affected leaves"]}''\<close>

definition leaf_blight :: js_value where
  "leaf_blight = JObject [(''health_percentage'', JNumber 72),
     (''predicted_disease'', JString ''Leaf Blight''),
     (''home_remedies'', JArray [JString ''Status: early blight'', JString ''Spray soapy water'',
        JString ''Remove affected leaves''])]"

definition high_text :: string where
  \<open>high_text = ''{"health_percentage": "high", "predicted_disease": "Rust", "home_remedies": ["a", "b", "c"]}''\<close>

definition high :: js_value where
  "high = JObject [(''health_percentage'', JString ''high''),
     (''predicted_disease'', JString ''Rust''),
     (''home_remedies'', JArray [JString ''a'', JString ''b'', JString ''c''])]"

definition overshoot_text :: string where
  \<open>overshoot_text = ''{"health_percentage": 150.5, "predicted_disease": "", "home_remedies": []}''\<close>

definition overshoot :: js_value where
  "overshoot = JObject [(''health_percentage'', JNumber 150.5),
     (''predicted_disease'', JString []), (''home_remedies'', JArray [])]"

definition health_only_text :: string where
  \<open>health_only_text = ''{"health_percentage": 72}''\<close>

definition health_only :: js_value where
  "health_only = JObject [(''health_percentage'', JNumber 72)]"

definition JSON_parse_table :: "js_value \<Rightarrow> js_error + js_value" where
  "JSON_parse_table v =
     (if v = JString leaf_blight_text then Inr leaf_blight
      else if v = JString high_text then Inr high
      else if v = JString overshoot_text then Inr overshoot
      else if v = JString health_only_text then Inr health_only
      else Inl SyntaxError)"



text \<open>
  The invariants of an AnalysisResult as section 3 of the specification words them:
  \<open>healthPercentage\<close> an integer between 0 and 100, \<open>predictedDisease\<close> a non-empty
  string, \<open>remedies\<close> a sequence of 3 to 5 non-empty strings.
\<close>

fun nonempty_string :: "js_value \<Rightarrow> bool" where
  "nonempty_string (JString s) = (s \<noteq> [])"
| "nonempty_string v = False"

fun integer_0_100 :: "js_value \<Rightarrow> bool" where
  "integer_0_100 (JNumber x) = (x = of_int \<lfloor>x\<rfloor> \<and> 0 \<le> x \<and> x \<le> 100)"
| "integer_0_100 v = False"

fun three_to_five_strings :: "js_value \<Rightarrow> bool" where
  "three_to_five_strings (JArray xs) =
     (3 \<le> length xs \<and> length xs \<le> 5 \<and> list_all nonempty_string xs)"
| "three_to_five_strings v = False"

fun own_prop :: "js_value \<Rightarrow> string \<Rightarrow> js_value" where
  "own_prop (JObject kvs) name = (case map_of kvs name of None \<Rightarrow> JUndefined | Some v \<Rightarrow> v)"
| "own_prop v name = JUndefined"


definition spec_AnalysisResult :: "js_value \<Rightarrow> bool" where
  "spec_AnalysisResult r =
     (integer_0_100 (own_prop r ''health_percentage'') \<and>
      nonempty_string (own_prop r ''predicted_disease'') \<and>
      three_to_five_strings (own_prop r ''home_remedies''))"

text \<open>A signed-in chat component with a message typed in.\<close>

definition bot_typing :: "string \<Rightarrow> bot" where
  "bot_typing s = \<lparr>db = True, userId = Some ''u1'', messages = [], input = s, loading = False\<rparr>"

text \<open>Appending user turns with the given texts, one after the other.\<close>

fun append_turns :: "string \<Rightarrow> js_value list \<Rightarrow> world \<Rightarrow> world" where
  "append_turns path [] w = w"
| "append_turns path (t # ts) w = append_turns path ts (snd (addDoc path (''user'', t) w))"

section \<open>Facts about the retry loop\<close>

declare retry_loop.simps [simp del]

lemma retry_loop_exhausted:
  "maxRetries \<le> int i \<Longrightarrow> retry_loop fn maxRetries i w = ((Inr None, 0), w)"
  by (subst retry_loop.simps) simp

lemma retry_loop_success_at:
  assumes "int k < maxRetries" and "i \<le> k"
    and "\<And>j. i \<le> j \<Longrightarrow> j < k \<Longrightarrow> isl (fst (fn (attempt_world fn j w)))"
    and "fst (fn (attempt_world fn k w)) = Inr v"
  shows "retry_loop fn maxRetries i (attempt_world fn i w) =
           ((Inr (Some v), k - i + 1), snd (fn (attempt_world fn k w)))"
  using assms
proof (induction "k - i" arbitrary: i)
  case 0
  then have "i = k" by simp
  with 0 show ?case
    by (subst retry_loop.simps) (cases "fn (attempt_world fn k w)", simp)
next
  case (Suc d)
  then have lt: "i < k" and fails: "isl (fst (fn (attempt_world fn i w)))" by auto
  obtain r w' where fw: "fn (attempt_world fn i w) = (r, w')" by (cases "fn (attempt_world fn i w)")
  with fails obtain e where r: "r = Inl e" by (cases r) auto
  have step: "attempt_world fn (Suc i) w = backoff i w'" using fw by simp
  have IH: "retry_loop fn maxRetries (Suc i) (attempt_world fn (Suc i) w) =
           ((Inr (Some v), k - Suc i + 1), snd (fn (attempt_world fn k w)))"
    using Suc.hyps(1)[of "Suc i"] Suc.hyps(2) Suc.prems lt by auto
  have "int i < maxRetries" "int i \<noteq> maxRetries - 1" using lt Suc.prems(1) by auto
  then show ?case
    using fw r IH step lt by (subst retry_loop.simps) (simp del: attempt_world.simps)
qed

lemma retry_loop_all_fail:
  assumes "int i < maxRetries"
    and "\<And>j. i \<le> j \<Longrightarrow> int j < maxRetries \<Longrightarrow> isl (fst (fn (attempt_world fn j w)))"
  shows "retry_loop fn maxRetries i (attempt_world fn i w) =
           ((Inl (projl (fst (fn (attempt_world fn (nat maxRetries - 1) w)))), nat maxRetries - i),
            snd (fn (attempt_world fn (nat maxRetries - 1) w)))"
  using assms
proof (induction "nat maxRetries - 1 - i" arbitrary: i)
  case 0
  then have i: "i = nat maxRetries - 1" by auto
  have fails: "isl (fst (fn (attempt_world fn i w)))" using 0 by auto
  obtain r w' where fw: "fn (attempt_world fn i w) = (r, w')" by (cases "fn (attempt_world fn i w)")
  with fails obtain e where r: "r = Inl e" by (cases r) auto
  have "int i = maxRetries - 1" using i 0 by auto
  then show ?case using fw r i 0 by (subst retry_loop.simps) (simp del: attempt_world.simps)
next
  case (Suc d)
  then have lt: "int (Suc i) < maxRetries" by auto
  have fails: "isl (fst (fn (attempt_world fn i w)))" using Suc by auto
  obtain r w' where fw: "fn (attempt_world fn i w) = (r, w')" by (cases "fn (attempt_world fn i w)")
  with fails obtain e where r: "r = Inl e" by (cases r) auto
  have step: "attempt_world fn (Suc i) w = backoff i w'" using fw by simp
  have IH: "retry_loop fn maxRetries (Suc i) (attempt_world fn (Suc i) w) =
           ((Inl (projl (fst (fn (attempt_world fn (nat maxRetries - 1) w)))), nat maxRetries - Suc i),
            snd (fn (attempt_world fn (nat maxRetries - 1) w)))"
    using Suc.hyps(1)[of "Suc i"] Suc.hyps(2) Suc.prems lt by auto
  have "int i < maxRetries" "int i \<noteq> maxRetries - 1" using lt by auto
  then show ?case
    using fw r IH step lt by (subst retry_loop.simps) (simp del: attempt_world.simps)
qed

lemma retry_loop_preserves:
  assumes "\<And>w. f (snd (fn w)) = f w" and "\<And>i w. f (backoff i w) = f w"
  shows "f (snd (retry_loop fn maxRetries i w)) = f w"
  using assms
proof (induction fn maxRetries i w rule: retry_loop.induct)
  case (1 fn maxRetries i w)
  note pres = "1.prems"
  show ?case
  proof (cases "int i < maxRetries")
    case False
    then show ?thesis by (subst retry_loop.simps) simp
  next
    case True
    obtain r w' where fw: "fn w = (r, w')" by (cases "fn w")
    have w': "f w' = f w" using pres(1)[of w] fw by simp
    show ?thesis
    proof (cases r)
      case (Inr v)
      then show ?thesis using True fw w' by (subst retry_loop.simps) simp
    next
      case (Inl e)
      show ?thesis
      proof (cases "int i = maxRetries - 1")
        case True
        then show ?thesis using Inl fw w' by (subst retry_loop.simps) simp
      next
        case False
        have "f (snd (retry_loop fn maxRetries (i + 1) (backoff i w'))) = f (backoff i w')"
          using "1.IH"[OF True fw[symmetric] Inl False pres] by simp
        then show ?thesis
          using True False Inl fw w' pres(2)[of i w']
          by (subst retry_loop.simps) (auto split: prod.splits)
      qed
    qed
  qed
qed

section \<open>Facts about the inference call\<close>

lemma apiCall_fst:
  "fst (apiCall p w) =
     (case network w (length (requests w)) of
        Inl e \<Rightarrow> Inl e
      | Inr r \<Rightarrow> if ok r then json r else Inl (ApiCallFailed (status r)))"
  by (simp add: apiCall_def fetch_def split: sum.splits)

lemma apiCall_snd: "snd (apiCall p w) = w\<lparr>requests := requests w @ [p]\<rparr>"
  by (simp add: apiCall_def fetch_def split: sum.splits)

lemma apiCall_isl: "isl (fst (apiCall p w)) = attempt_fails (network w (length (requests w)))"
  by (cases "network w (length (requests w))") (simp_all add: apiCall_fst)

lemma backoff_eq:
  "backoff i w =
     w\<lparr>draws := draws w + 1, sleeps := sleeps w @ [backoff_delay i (random w (draws w))]\<rparr>"
  by (simp add: backoff_def Math_random_def setTimeout_def)

lemma attempt_world_apiCall:
  "attempt_world (apiCall p) j w =
     w\<lparr>requests := requests w @ replicate j p,
       draws := draws w + j,
       sleeps := sleeps w @ map (\<lambda>i. backoff_delay i (random w (draws w + i))) [0..<j]\<rparr>"
proof (induction j)
  case 0
  show ?case by simp
next
  case (Suc j)
  show ?case
    by (simp add: Suc apiCall_snd backoff_eq replicate_append_same)
qed

lemma retry_apiCall_exhausted:
  assumes "\<And>j. j < 5 \<Longrightarrow> attempt_fails (network w (length (requests w) + j))"
  shows "\<exists>e w'. retryWithBackoff (apiCall p) 5 w = (Inl e, w') \<and>
           collections w' = collections w \<and> store_fault w' = store_fault w \<and>
           writes w' = writes w \<and> clock w' = clock w \<and> console w' = console w \<and>
           requests w' = requests w @ replicate 5 p"
proof -
  have fails: "\<And>j. 0 \<le> j \<Longrightarrow> int j < 5 \<Longrightarrow> isl (fst (apiCall p (attempt_world (apiCall p) j w)))"
    using assms by (simp add: apiCall_isl attempt_world_apiCall)
  have "retry_loop (apiCall p) 5 0 (attempt_world (apiCall p) 0 w) =
           ((Inl (projl (fst (apiCall p (attempt_world (apiCall p) (nat 5 - 1) w)))), nat 5 - 0),
            snd (apiCall p (attempt_world (apiCall p) (nat 5 - 1) w)))"
    by (rule retry_loop_all_fail) (use fails in auto)
  moreover have "replicate 4 p @ [p] = replicate 5 p"
    by (simp add: numeral_eq_Suc replicate_append_same)
  ultimately show ?thesis
    by (simp add: retryWithBackoff_def apiCall_snd attempt_world_apiCall)
qed

lemma retry_apiCall_succeeds:
  assumes "k < 5"
    and "\<And>j. j < k \<Longrightarrow> attempt_fails (network w (length (requests w) + j))"
    and "network w (length (requests w) + k) = Inr r" and "ok r" and "json r = Inr body"
  shows "\<exists>w'. retryWithBackoff (apiCall p) 5 w = (Inr (Some body), w') \<and>
           collections w' = collections w \<and> store_fault w' = store_fault w \<and>
           writes w' = writes w \<and> clock w' = clock w \<and> console w' = console w \<and>
           requests w' = requests w @ replicate (Suc k) p"
proof -
  have fails: "\<And>j. 0 \<le> j \<Longrightarrow> j < k \<Longrightarrow> isl (fst (apiCall p (attempt_world (apiCall p) j w)))"
    using assms(2) by (simp add: apiCall_isl attempt_world_apiCall)
  have ok: "fst (apiCall p (attempt_world (apiCall p) k w)) = Inr body"
    using assms(3-5) by (simp add: apiCall_fst attempt_world_apiCall)
  have "retry_loop (apiCall p) 5 0 (attempt_world (apiCall p) 0 w) =
           ((Inr (Some body), k - 0 + 1), snd (apiCall p (attempt_world (apiCall p) k w)))"
    by (rule retry_loop_success_at) (use assms(1) fails ok in auto)
  then show ?thesis
    by (simp add: retryWithBackoff_def apiCall_snd attempt_world_apiCall replicate_append_same)
qed

lemma attempt_succeeds_response:
  assumes "\<not> attempt_fails out"
  shows "\<exists>resp body. out = Inr resp \<and> ok resp \<and> json resp = Inr body"
proof (cases out)
  case (Inl e)
  with assms show ?thesis by simp
next
  case (Inr resp)
  with assms have "ok resp" and "\<not> isl (json resp)"
    by (auto split: if_splits)
  then show ?thesis
    using Inr by (cases "json resp") auto
qed

lemma retry_apiCall_returns:
  assumes "retryWithBackoff (apiCall p) 5 w = (Inr res, w')"
  shows "\<exists>k<5. \<exists>resp body. res = Some body \<and>
           (\<forall>j<k. attempt_fails (network w (length (requests w) + j))) \<and>
           network w (length (requests w) + k) = Inr resp \<and> ok resp \<and> json resp = Inr body"
proof -
  let ?fails = "\<lambda>j. attempt_fails (network w (length (requests w) + j))"
  have "\<exists>j<5. \<not> ?fails j"
  proof (rule ccontr)
    assume "\<not> (\<exists>j<5. \<not> ?fails j)"
    then have "\<And>j. j < 5 \<Longrightarrow> ?fails j" by blast
    from retry_apiCall_exhausted[OF this, of p] assms show False by auto
  qed
  then obtain j0 where j0: "j0 < 5" "\<not> ?fails j0" by blast
  define k where "k = (LEAST j. \<not> ?fails j)"
  have k: "\<not> ?fails k" unfolding k_def using j0(2) by (rule LeastI)
  have kle: "k \<le> j0" unfolding k_def using j0(2) by (rule Least_le)
  have before: "\<forall>j<k. ?fails j"
    unfolding k_def using not_less_Least by blast
  obtain resp body where resp: "network w (length (requests w) + k) = Inr resp" "ok resp"
      "json resp = Inr body"
    using attempt_succeeds_response[OF k] by blast
  have "k < 5" using kle j0(1) by simp
  then obtain w'' where "retryWithBackoff (apiCall p) 5 w = (Inr (Some body), w'')"
    using retry_apiCall_succeeds[of k w resp body p] before resp by blast
  with assms have "res = Some body" by simp
  with \<open>k < 5\<close> before resp show ?thesis by blast
qed

lemma attempt_world_timing:
  assumes "\<And>w. random (snd (fn w)) = random w \<and> draws (snd (fn w)) = draws w \<and>
                sleeps (snd (fn w)) = sleeps w"
  shows "random (attempt_world fn j w) = random w \<and>
         draws (attempt_world fn j w) = draws w + j \<and>
         sleeps (attempt_world fn j w) =
           sleeps w @ map (\<lambda>i. backoff_delay i (random w (draws w + i))) [0..<j]"
proof (induction j)
  case 0
  show ?case by simp
next
  case (Suc j)
  then show ?case
    using assms[of "attempt_world fn j w"] by (simp add: backoff_eq)
qed



lemma candidate_text_envelope: "candidate_text (envelope t) = Inr t"
  by (cases t) (simp_all add: candidate_text_def envelope_def opt_prop_def opt_index0_def)


section \<open>Facts about the scanner\<close>

lemma handleScan_try_payload:
  assumes "readAsDataURL f = Inr url"
  shows "\<exists>p. handleScan_try JSON_parse f w =
           (case retryWithBackoff (apiCall p) 5 w of
              (Inl e, w') \<Rightarrow> (Inl e, w')
            | (Inr result, w') \<Rightarrow> (handleScan_decode JSON_parse (awaited result), w'))"
  using assms
  by (auto simp: handleScan_try_def fileToBase64_def Let_def split: list.splits)

lemma handleScan_accepts:
  "scan_file st = Some f \<Longrightarrow> fst (handleScan_try JSON_parse f w) = Inr r \<Longrightarrow>
     scanResult (fst (handleScan JSON_parse st w)) = Some r"
  by (cases "handleScan_try JSON_parse f w") (simp add: handleScan_def Let_def)

lemma handleScan_try_answered:
  assumes "readAsDataURL f = Inr url"
    and "network w (length (requests w)) = Inr r" and "ok r" and "json r = Inr body"
  shows "fst (handleScan_try JSON_parse f w) = handleScan_decode JSON_parse body"
proof -
  obtain p where p: "handleScan_try JSON_parse f w =
           (case retryWithBackoff (apiCall p) 5 w of
              (Inl e, w') \<Rightarrow> (Inl e, w')
            | (Inr result, w') \<Rightarrow> (handleScan_decode JSON_parse (awaited result), w'))"
    using handleScan_try_payload[OF assms(1)] by blast
  obtain w' where "retryWithBackoff (apiCall p) 5 w = (Inr (Some body), w')"
    using retry_apiCall_succeeds[of 0 w r body p] assms(2-4) by auto
  with p show ?thesis by simp
qed

section \<open>Facts about the store and the chat\<close>

lemma addDoc_accepted:
  assumes "store_fault w (writes w) = None"
  shows "\<exists>w'. addDoc path (r, t) w = (Inr (), w') \<and>
           collections w' = (collections w)(path := collections w path @
              [\<lparr>doc_id = writes w, role = r, text_field = t, timestamp = clock w\<rparr>]) \<and>
           writes w' = Suc (writes w) \<and> clock w' = Suc (clock w) \<and>
           store_fault w' = store_fault w \<and> network w' = network w \<and>
           requests w' = requests w \<and> console w' = console w"
  using assms by (simp add: addDoc_def)

lemma callGeminiApi_payload:
  "\<exists>p. callGeminiApi path st userMessage w =
     (case retryWithBackoff (apiCall p) 5 w of
        (Inl error, w1) \<Rightarrow> callGeminiApi_catch path error w1
      | (Inr result, w1) \<Rightarrow>
          (case candidate_text (awaited result) of
             Inl error \<Rightarrow> callGeminiApi_catch path error w1
           | Inr botResponse \<Rightarrow>
               if truthy botResponse then
                 (case addDoc path (''model'', botResponse) w1 of
                    (Inl error, w2) \<Rightarrow> callGeminiApi_catch path error w2
                  | (Inr u, w2) \<Rightarrow> (Inr (), w2))
               else (Inr (), w1)))"
  by (auto simp: callGeminiApi_def Let_def)

lemma trim_examples:
  "trim ''  my fern is yellow  '' = ''my fern is yellow''" "trim ''hello'' = ''hello''"
  by (simp_all add: trim_def is_whitespace_def)

lemma handleSend_answered:
  assumes "userId st = Some uid" and "uid \<noteq> []" and "db st" and "\<not> loading st"
    and "trim (input st) \<noteq> []"
    and "k < 5"
    and "\<forall>j<k. attempt_fails (network w (length (requests w) + j))"
    and "network w (length (requests w) + k) = Inr r" and "ok r" and "json r = Inr body"
    and "candidate_text body = Inr t"
    and "store_fault w (writes w) = None" and "store_fault w (Suc (writes w)) = None"
  shows "\<exists>w'. handleSend appId st w = (Inr (), st\<lparr>input := [], loading := False\<rparr>, w') \<and>
           collections w' = (collections w)
             (CHAT_COLLECTION appId uid := collections w (CHAT_COLLECTION appId uid) @
                [\<lparr>doc_id = writes w, role = ''user'', text_field = JString (trim (input st)),
                  timestamp = clock w\<rparr>] @
                (if truthy t
                 then [\<lparr>doc_id = Suc (writes w), role = ''model'', text_field = t,
                        timestamp = Suc (clock w)\<rparr>]
                 else []))"
proof -
  let ?path = "CHAT_COLLECTION appId uid"
  let ?um = "trim (input st)"
  obtain w0 where user: "addDoc ?path (''user'', JString ?um) w = (Inr (), w0)"
    and w0: "collections w0 = (collections w)(?path := collections w ?path @
              [\<lparr>doc_id = writes w, role = ''user'', text_field = JString ?um, timestamp = clock w\<rparr>])"
      "writes w0 = Suc (writes w)" "clock w0 = Suc (clock w)"
      "store_fault w0 = store_fault w" "network w0 = network w" "requests w0 = requests w"
    using addDoc_accepted[OF assms(12), of ?path "''user''" "JString ?um"] by blast
  obtain p where cg: "callGeminiApi ?path st ?um w0 =
     (case retryWithBackoff (apiCall p) 5 w0 of
        (Inl error, w1) \<Rightarrow> callGeminiApi_catch ?path error w1
      | (Inr result, w1) \<Rightarrow>
          (case candidate_text (awaited result) of
             Inl error \<Rightarrow> callGeminiApi_catch ?path error w1
           | Inr botResponse \<Rightarrow>
               if truthy botResponse then
                 (case addDoc ?path (''model'', botResponse) w1 of
                    (Inl error, w2) \<Rightarrow> callGeminiApi_catch ?path error w2
                  | (Inr u, w2) \<Rightarrow> (Inr (), w2))
               else (Inr (), w1)))"
    using callGeminiApi_payload by blast
  have "\<And>j. j < k \<Longrightarrow> attempt_fails (network w0 (length (requests w0) + j))"
    and "network w0 (length (requests w0) + k) = Inr r"
    using assms(7,8) w0 by simp_all
  then obtain w1 where retry: "retryWithBackoff (apiCall p) 5 w0 = (Inr (Some body), w1)"
    and w1: "collections w1 = collections w0" "store_fault w1 = store_fault w0"
      "writes w1 = writes w0" "clock w1 = clock w0"
    using retry_apiCall_succeeds[of k w0 r body p] assms(6,9,10) by blast
  show ?thesis
  proof (cases "truthy t")
    case False
    then have "callGeminiApi ?path st ?um w0 = (Inr (), w1)"
      using cg retry assms(11) by simp
    then have "handleSend appId st w = (Inr (), st\<lparr>input := [], loading := False\<rparr>, w1)"
      using assms(1-5) user by (simp add: handleSend_def Let_def)
    then show ?thesis using False w1 w0 by simp
  next
    case True
    have "store_fault w1 (writes w1) = None"
      using assms(13) w0 w1 by simp
    then obtain w2 where bot: "addDoc ?path (''model'', t) w1 = (Inr (), w2)"
      and w2: "collections w2 = (collections w1)(?path := collections w1 ?path @
              [\<lparr>doc_id = writes w1, role = ''model'', text_field = t, timestamp = clock w1\<rparr>])"
      using addDoc_accepted[of w1 ?path "''model''" t] by blast
    have "callGeminiApi ?path st ?um w0 = (Inr (), w2)"
      using cg retry assms(11) True bot by simp
    then have "handleSend appId st w = (Inr (), st\<lparr>input := [], loading := False\<rparr>, w2)"
      using assms(1-5) user by (simp add: handleSend_def Let_def)
    then show ?thesis using True w2 w1 w0 by simp
  qed
qed

lemma handleSend_first_answer:
  assumes "candidate_text body = Inr t"
  shows "map role (collections (snd (snd (handleSend ''garden'' (bot_typing ''hello'')
            (quiet_world (net_recovers 0 body))))) (CHAT_COLLECTION ''garden'' ''u1'')) =
           (if truthy t then [''user'', ''model''] else [''user'']) \<and>
         map text_field (collections (snd (snd (handleSend ''garden'' (bot_typing ''hello'')
            (quiet_world (net_recovers 0 body))))) (CHAT_COLLECTION ''garden'' ''u1'')) =
           (if truthy t then [JString ''hello'', t] else [JString ''hello''])"
proof -
  let ?st = "bot_typing ''hello''"
  let ?w = "quiet_world (net_recovers 0 body)"
  have g: "userId ?st = Some ''u1''" "''u1'' \<noteq> []" "db ?st" "\<not> loading ?st" "trim (input ?st) \<noteq> []"
    by (simp_all add: bot_typing_def trim_examples)
  have n: "\<forall>j<0. attempt_fails (network ?w (length (requests ?w) + j))"
    "network ?w (length (requests ?w) + 0) = Inr \<lparr>ok = True, status = 200, json = Inr body\<rparr>"
    by (simp_all add: quiet_world_def net_recovers_def)
  have s: "store_fault ?w (writes ?w) = None" "store_fault ?w (Suc (writes ?w)) = None"
    by (simp_all add: quiet_world_def)
  obtain w' where "handleSend ''garden'' ?st ?w = (Inr (), ?st\<lparr>input := [], loading := False\<rparr>, w')"
    and "collections w' = (collections ?w)
             (CHAT_COLLECTION ''garden'' ''u1'' := collections ?w (CHAT_COLLECTION ''garden'' ''u1'') @
                [\<lparr>doc_id = writes ?w, role = ''user'', text_field = JString (trim (input ?st)),
                  timestamp = clock ?w\<rparr>] @
                (if truthy t
                 then [\<lparr>doc_id = Suc (writes ?w), role = ''model'', text_field = t,
                        timestamp = Suc (clock ?w)\<rparr>]
                 else []))"
    using handleSend_answered [OF g _ n _ _ assms s, of "''garden''"] by auto
  then show ?thesis
    by (simp add: quiet_world_def bot_typing_def trim_examples)
qed

lemma append_turns_collection:
  assumes "\<forall>n. store_fault w n = None" and "clock w = writes w"
  shows "collections (append_turns path ts w) path =
           collections w path @
           map (\<lambda>(i, t). \<lparr>doc_id = i, role = ''user'', text_field = t, timestamp = i\<rparr>)
             (enumerate (writes w) ts)"
  using assms
proof (induction ts arbitrary: w)
  case Nil
  show ?case by simp
next
  case (Cons t ts)
  let ?w1 = "snd (addDoc path (''user'', t) w)"
  have w1: "collections ?w1 path = collections w path @
              [\<lparr>doc_id = writes w, role = ''user'', text_field = t, timestamp = writes w\<rparr>]"
    "writes ?w1 = Suc (writes w)" "clock ?w1 = writes ?w1" "\<forall>n. store_fault ?w1 n = None"
    using Cons.prems by (simp_all add: addDoc_def)
  show ?case
    using Cons.IH[of ?w1] w1 by simp
qed

lemma chatHistory_sorted_log:
  assumes "sorted (map timestamp ds)"
  shows "chatHistory ds = filter (\<lambda>msg. truthy (text_field msg)) (take 50 ds)"
  using assms by (simp add: chatHistory_def query_orderBy_asc_limit_def sort_key_id_if_sorted)

lemma take_upt_min: "take m [0..<n] = [0..<min m n]"
  by (cases "m \<le> n") (simp_all add: min_def)

lemma chatHistory_fresh_log:
  assumes "list_all truthy ts"
  shows "map doc_id (collections (append_turns path ts (quiet_world net)) path) = [0..<length ts] \<and>
         map doc_id (chatHistory (collections (append_turns path ts (quiet_world net)) path)) =
           [0..<min 50 (length ts)]"
proof -
  let ?ds = "collections (append_turns path ts (quiet_world net)) path"
  let ?mk = "\<lambda>(i, t). \<lparr>doc_id = i, role = ''user'', text_field = t, timestamp = i\<rparr>"
  have ds: "?ds = map ?mk (enumerate 0 ts)"
    using append_turns_collection[of "quiet_world net" path ts]
    by (simp add: quiet_world_def)
  have "doc_id \<circ> ?mk = fst" and "timestamp \<circ> ?mk = fst"
    by (auto simp: fun_eq_iff)
  then have ids: "map doc_id ?ds = [0..<length ts]" and stamps: "map timestamp ?ds = [0..<length ts]"
    unfolding ds by simp_all
  have "\<forall>msg \<in> set ?ds. truthy (text_field msg)"
    using assms unfolding ds by (auto simp: in_set_enumerate_eq list_all_iff)
  then have "\<forall>msg \<in> set (take 50 ?ds). truthy (text_field msg)"
    by (blast dest: in_set_takeD)
  then have all: "filter (\<lambda>msg. truthy (text_field msg)) (take 50 ?ds) = take 50 ?ds"
    by (simp only: filter_id_conv)
  have "sorted (map timestamp ?ds)"
    by (simp only: stamps sorted_upt)
  then have "chatHistory ?ds = filter (\<lambda>msg. truthy (text_field msg)) (take 50 ?ds)"
    by (rule chatHistory_sorted_log)
  then have "map doc_id (chatHistory ?ds) = take 50 (map doc_id ?ds)"
    by (simp only: all take_map)
  then have "map doc_id (chatHistory ?ds) = [0..<min 50 (length ts)]"
    by (simp only: ids take_upt_min)
  with ids show ?thesis by blast
qed

section \<open>BackoffRetryExecutor\<close>

text \<open>
  C3. When the operation fails on every attempt and \<open>maxRetries \<ge> 1\<close>, it is invoked
  exactly \<open>maxRetries\<close> times, and what \<^verbatim>\<open>retryWithBackoff\<close> throws is the very error
  the last invocation (attempt \<open>maxRetries - 1\<close>) failed with; the world it leaves is
  the one that invocation left.
\<close>

theorem retryWithBackoff_always_failing:
  assumes "1 \<le> maxRetries"
    and "\<forall>j. int j < maxRetries \<longrightarrow> isl (fst (fn (attempt_world fn j w)))"
  shows "invocations fn maxRetries w = nat maxRetries \<and>
         (\<exists>e. fn (attempt_world fn (nat maxRetries - 1) w) =
                 (Inl e, snd (retryWithBackoff fn maxRetries w)) \<and>
              fst (retryWithBackoff fn maxRetries w) = Inl e)"
proof -
  have "retry_loop fn maxRetries 0 (attempt_world fn 0 w) =
           ((Inl (projl (fst (fn (attempt_world fn (nat maxRetries - 1) w)))), nat maxRetries - 0),
            snd (fn (attempt_world fn (nat maxRetries - 1) w)))"
    by (rule retry_loop_all_fail) (use assms in auto)
  moreover have "isl (fst (fn (attempt_world fn (nat maxRetries - 1) w)))"
    using assms by auto
  ultimately show ?thesis
    by (cases "fn (attempt_world fn (nat maxRetries - 1) w)")
       (auto simp: retryWithBackoff_def invocations_def isl_def)
qed

theorem retryWithBackoff_always_failing_witness:
  "(1::int) \<le> 5 \<and>
   invocations (apiCall ping) 5 (quiet_world net_failing) = 5 \<and>
   fst (retryWithBackoff (apiCall ping) 5 (quiet_world net_failing)) = Inl (ApiCallFailed 504)"
proof -
  let ?w = "quiet_world net_failing"
  have fails: "\<forall>j. int j < 5 \<longrightarrow> isl (fst (apiCall ping (attempt_world (apiCall ping) j ?w)))"
    by (simp add: apiCall_isl attempt_world_apiCall quiet_world_def net_failing_def)
  have last: "fst (apiCall ping (attempt_world (apiCall ping) (nat 5 - 1) ?w)) = Inl (ApiCallFailed 504)"
    by (simp add: apiCall_fst attempt_world_apiCall quiet_world_def net_failing_def)
  show ?thesis
    using retryWithBackoff_always_failing [of 5 "apiCall ping" ?w, OF _ fails] last
    by auto
qed

text \<open>
  C4. When the operation fails on attempts \<open>0..k-1\<close> and succeeds with \<open>v\<close> on attempt
  \<open>k < maxRetries\<close>, \<^verbatim>\<open>retryWithBackoff\<close> returns \<open>v\<close> after exactly \<open>k + 1\<close>
  invocations.
\<close>

theorem retryWithBackoff_succeeds_at:
  assumes "int k < maxRetries"
    and "\<forall>j<k. isl (fst (fn (attempt_world fn j w)))"
    and "fst (fn (attempt_world fn k w)) = Inr v"
  shows "retryWithBackoff fn maxRetries w = (Inr (Some v), snd (fn (attempt_world fn k w))) \<and>
         invocations fn maxRetries w = k + 1"
proof -
  have "retry_loop fn maxRetries 0 (attempt_world fn 0 w) =
           ((Inr (Some v), k - 0 + 1), snd (fn (attempt_world fn k w)))"
    by (rule retry_loop_success_at) (use assms in auto)
  then show ?thesis
    by (simp add: retryWithBackoff_def invocations_def)
qed

theorem retryWithBackoff_succeeds_at_witness:
  "int 2 < 5 \<and>
   fst (retryWithBackoff (apiCall ping) 5 (quiet_world (net_recovers 2 (JString ''pong'')))) =
     Inr (Some (JString ''pong'')) \<and>
   invocations (apiCall ping) 5 (quiet_world (net_recovers 2 (JString ''pong''))) = 3 \<and>
   length (requests (snd (retryWithBackoff (apiCall ping) 5
             (quiet_world (net_recovers 2 (JString ''pong'')))))) = 3"
proof -
  let ?w = "quiet_world (net_recovers 2 (JString ''pong''))"
  have fails: "\<forall>j<2. isl (fst (apiCall ping (attempt_world (apiCall ping) j ?w)))"
    by (simp add: apiCall_isl attempt_world_apiCall quiet_world_def net_recovers_def)
  have good: "fst (apiCall ping (attempt_world (apiCall ping) 2 ?w)) = Inr (JString ''pong'')"
    by (simp add: apiCall_fst attempt_world_apiCall quiet_world_def net_recovers_def)
  show ?thesis
    using retryWithBackoff_succeeds_at [of 2 5 "apiCall ping" ?w, OF _ fails good]
    by (simp add: apiCall_snd attempt_world_apiCall quiet_world_def)
qed

text \<open>
  C8. When every attempt fails (and the operation itself leaves the timer and the
  random number generator alone), the delays slept are, in order,
  \<open>2 ^ i * 1000 + r\<^sub>i * 1000\<close> for \<open>i = 0, ..., maxRetries - 2\<close>, where \<open>r\<^sub>i\<close> is what
  \<^verbatim>\<open>Math.random()\<close> returned; with \<open>r\<^sub>i\<close> in \<open>[0, 1)\<close> delay \<open>i\<close> lies in
  \<open>[2 ^ i * 1000, 2 ^ i * 1000 + 1000)\<close>, and the jitter-free part doubles from one
  attempt to the next.
\<close>

theorem backoff_delay_doubles:
  assumes "1 \<le> maxRetries"
    and "\<forall>j. int j < maxRetries \<longrightarrow> isl (fst (fn (attempt_world fn j w)))"
    and "\<forall>w. random (snd (fn w)) = random w \<and> draws (snd (fn w)) = draws w \<and>
              sleeps (snd (fn w)) = sleeps w"
    and "\<forall>n. 0 \<le> random w n \<and> random w n < 1"
  shows "sleeps (snd (retryWithBackoff fn maxRetries w)) =
           sleeps w @ map (\<lambda>i. backoff_delay i (random w (draws w + i))) [0..<nat maxRetries - 1] \<and>
         (\<forall>i n. backoff_delay i (random w n) = 2 ^ i * 1000 + random w n * 1000 \<and>
                2 ^ i * 1000 \<le> backoff_delay i (random w n) \<and>
                backoff_delay i (random w n) < 2 ^ i * 1000 + 1000) \<and>
         (\<forall>i. backoff_delay i 0 = 2 ^ i * 1000 \<and>
              backoff_delay (i + 1) 0 = 2 * backoff_delay i 0 \<and>
              backoff_delay i 0 \<le> backoff_delay (i + 1) 0)"
proof -
  have "retry_loop fn maxRetries 0 (attempt_world fn 0 w) =
           ((Inl (projl (fst (fn (attempt_world fn (nat maxRetries - 1) w)))), nat maxRetries - 0),
            snd (fn (attempt_world fn (nat maxRetries - 1) w)))"
    by (rule retry_loop_all_fail) (use assms(1,2) in auto)
  then have "sleeps (snd (retryWithBackoff fn maxRetries w)) =
               sleeps (attempt_world fn (nat maxRetries - 1) w)"
    using assms(3) by (simp add: retryWithBackoff_def)
  then have trace: "sleeps (snd (retryWithBackoff fn maxRetries w)) =
           sleeps w @ map (\<lambda>i. backoff_delay i (random w (draws w + i))) [0..<nat maxRetries - 1]"
    using attempt_world_timing[of fn "nat maxRetries - 1" w] assms(3) by simp
  have bounds: "\<forall>i n. backoff_delay i (random w n) = 2 ^ i * 1000 + random w n * 1000 \<and>
                2 ^ i * 1000 \<le> backoff_delay i (random w n) \<and>
                backoff_delay i (random w n) < 2 ^ i * 1000 + 1000"
    using assms(4) by (simp add: backoff_delay_def)
  have floors: "\<forall>i. backoff_delay i 0 = 2 ^ i * 1000 \<and>
              backoff_delay (i + 1) 0 = 2 * backoff_delay i 0 \<and>
              backoff_delay i 0 \<le> backoff_delay (i + 1) 0"
    by (simp add: backoff_delay_def)
  from trace bounds floors show ?thesis by blast
qed

theorem backoff_delay_doubles_witness:
  "(1::int) \<le> 5 \<and>
   sleeps (snd (retryWithBackoff (apiCall ping) 5 (quiet_world net_failing))) =
     [1500, 2500, 4500, 8500] \<and>
   backoff_delay 0 0 = 1000 \<and> backoff_delay 1 0 = 2000 \<and> backoff_delay 2 0 = 4000 \<and>
   backoff_delay 3 0 = 8000"
proof -
  let ?w = "quiet_world net_failing"
  have fails: "\<forall>j. int j < 5 \<longrightarrow> isl (fst (apiCall ping (attempt_world (apiCall ping) j ?w)))"
    by (simp add: apiCall_isl attempt_world_apiCall quiet_world_def net_failing_def)
  have quiet: "\<forall>w. random (snd (apiCall ping w)) = random w \<and>
                  draws (snd (apiCall ping w)) = draws w \<and>
                  sleeps (snd (apiCall ping w)) = sleeps w"
    by (simp add: apiCall_snd)
  have rnd: "\<forall>n. 0 \<le> random ?w n \<and> random ?w n < 1"
    by (simp add: quiet_world_def)
  have "[0..<nat 5 - 1] = [0, 1, 2, 3]"
    by (simp add: upt_rec)
  then show ?thesis
    using backoff_delay_doubles [of 5 "apiCall ping" ?w, OF _ fails quiet rnd]
    by (simp add: quiet_world_def backoff_delay_def)
qed

text \<open>
  C10. Called with \<open>maxRetries \<le> 0\<close>, \<^verbatim>\<open>retryWithBackoff\<close> never invokes the
  operation, throws nothing and returns \<^verbatim>\<open>undefined\<close>: the world is untouched.
\<close>

theorem retryWithBackoff_no_attempts:
  "maxRetries \<le> 0 \<Longrightarrow>
     retryWithBackoff fn maxRetries w = (Inr None, w) \<and> invocations fn maxRetries w = 0"
  by (simp add: retryWithBackoff_def invocations_def retry_loop_exhausted)

theorem retryWithBackoff_no_attempts_witness:
  "(0::int) \<le> 0 \<and>
   retryWithBackoff (apiCall ping) 0 (quiet_world net_down) = (Inr None, quiet_world net_down) \<and>
   invocations (apiCall ping) 0 (quiet_world net_down) = 0 \<and>
   requests (snd (retryWithBackoff (apiCall ping) 0 (quiet_world net_down))) = []"
  using retryWithBackoff_no_attempts [of 0 "apiCall ping" "quiet_world net_down"]
  by (simp add: quiet_world_def)

section \<open>StructuredResponseDecoder and ScanOrchestrator\<close>




text \<open>
  C2, as amended. A scan that succeeds got an \<^verbatim>\<open>ok\<close> response with a JSON body on
  one of its five attempts (the ones before it failed), and its result is the value
  \<^verbatim>\<open>JSON.parse\<close> returned for the non-empty text of that body's first candidate; the
  \<^verbatim>\<open>health_percentage\<close> of the result is a number. Nothing else is checked.
\<close>

theorem handleScan_result_is_checked_number:
  assumes "scan_file st = Some f"
    and "scanResult (fst (handleScan JSON_parse st w)) = Some r"
  shows "(\<exists>k<5. \<exists>resp body t.
            (\<forall>j<k. attempt_fails (network w (length (requests w) + j))) \<and>
            network w (length (requests w) + k) = Inr resp \<and> ok resp \<and> json resp = Inr body \<and>
            candidate_text body = Inr t \<and> truthy t \<and> JSON_parse t = Inr r) \<and>
         (\<exists>x. get_prop r ''health_percentage'' = Inr (JNumber x)) \<and>
         scan_error (fst (handleScan JSON_parse st w)) = None"
proof -
  obtain res w' where t: "handleScan_try JSON_parse f w = (res, w')"
    by (cases "handleScan_try JSON_parse f w")
  with assms have res: "res = Inr r" and err: "scan_error (fst (handleScan JSON_parse st w)) = None"
    by (cases res; simp add: handleScan_def)+
  obtain url where url: "readAsDataURL f = Inr url"
    using t res by (cases "readAsDataURL f") (auto simp: handleScan_try_def fileToBase64_def)
  obtain p where p: "handleScan_try JSON_parse f w =
           (case retryWithBackoff (apiCall p) 5 w of
              (Inl e, w') \<Rightarrow> (Inl e, w')
            | (Inr result, w') \<Rightarrow> (handleScan_decode JSON_parse (awaited result), w'))"
    using handleScan_try_payload[OF url] by blast
  obtain out w1 where retry: "retryWithBackoff (apiCall p) 5 w = (out, w1)"
    by (cases "retryWithBackoff (apiCall p) 5 w")
  obtain result where out: "out = Inr result"
    and dec: "handleScan_decode JSON_parse (awaited result) = Inr r"
    using p t res retry by (cases out) auto
  obtain k resp body where k: "k < 5" "result = Some body"
      "\<forall>j<k. attempt_fails (network w (length (requests w) + j))"
      "network w (length (requests w) + k) = Inr resp" "ok resp" "json resp = Inr body"
    using retry_apiCall_returns[of p w result w1] retry out by blast
  from dec k(2) have "handleScan_decode JSON_parse body = Inr r" by simp
  then obtain t where "candidate_text body = Inr t" "truthy t" "JSON_parse t = Inr r"
      "\<exists>x. get_prop r ''health_percentage'' = Inr (JNumber x)"
    by (auto simp: handleScan_decode_def split: sum.splits if_splits elim!: typeof_number.elims)
  with k err show ?thesis by blast
qed

theorem handleScan_result_is_checked_number_witness:
  "scan_file (scanner_with photo) = Some photo \<and>
   scanResult (fst (handleScan JSON_parse_table (scanner_with photo)
      (quiet_world (net_recovers 0 (envelope (JString leaf_blight_text)))))) = Some leaf_blight \<and>
   candidate_text (envelope (JString leaf_blight_text)) = Inr (JString leaf_blight_text) \<and>
   JSON_parse_table (JString leaf_blight_text) = Inr leaf_blight \<and>
   (\<exists>x. get_prop leaf_blight ''health_percentage'' = Inr (JNumber x)) \<and>
   scan_error (fst (handleScan JSON_parse_table (scanner_with photo)
      (quiet_world (net_recovers 0 (envelope (JString leaf_blight_text)))))) = None"
proof -
  let ?w = "quiet_world (net_recovers 0 (envelope (JString leaf_blight_text)))"
  have f: "scan_file (scanner_with photo) = Some photo" by (simp add: scanner_with_def)
  have "fst (handleScan_try JSON_parse_table photo ?w) =
          handleScan_decode JSON_parse_table (envelope (JString leaf_blight_text))"
    by (rule handleScan_try_answered[where url = "''data:image/png;base64,iVBORw0KGgo=''"
          and r = "\<lparr>ok = True, status = 200, json = Inr (envelope (JString leaf_blight_text))\<rparr>"])
       (simp_all add: photo_def quiet_world_def net_recovers_def)
  moreover have "handleScan_decode JSON_parse_table (envelope (JString leaf_blight_text)) = Inr leaf_blight"
    by (simp add: handleScan_decode_def candidate_text_envelope JSON_parse_table_def
          leaf_blight_text_def leaf_blight_def)
  ultimately have r: "scanResult (fst (handleScan JSON_parse_table (scanner_with photo) ?w)) = Some leaf_blight"
    using handleScan_accepts[OF f] by simp
  have "JSON_parse_table (JString leaf_blight_text) = Inr leaf_blight"
    by (simp add: JSON_parse_table_def)
  then show ?thesis
    using handleScan_result_is_checked_number [OF f r] f r
    by (simp add: candidate_text_envelope)
qed

text \<open>
  The claim C2 as first stated fails: a scan succeeds with a health percentage of
  150.5, an empty disease name and no remedies.
\<close>

theorem handleScan_accepts_out_of_range_result:
  "scanResult (fst (handleScan JSON_parse_table (scanner_with photo)
      (quiet_world (net_recovers 0 (envelope (JString overshoot_text)))))) = Some overshoot \<and>
   \<not> spec_AnalysisResult overshoot"
proof -
  let ?w = "quiet_world (net_recovers 0 (envelope (JString overshoot_text)))"
  have f: "scan_file (scanner_with photo) = Some photo" by (simp add: scanner_with_def)
  have "fst (handleScan_try JSON_parse_table photo ?w) =
          handleScan_decode JSON_parse_table (envelope (JString overshoot_text))"
    by (rule handleScan_try_answered[where url = "''data:image/png;base64,iVBORw0KGgo=''"
          and r = "\<lparr>ok = True, status = 200, json = Inr (envelope (JString overshoot_text))\<rparr>"])
       (simp_all add: photo_def quiet_world_def net_recovers_def)
  moreover have "handleScan_decode JSON_parse_table (envelope (JString overshoot_text)) = Inr overshoot"
    by (simp add: handleScan_decode_def candidate_text_envelope JSON_parse_table_def
          leaf_blight_text_def high_text_def overshoot_text_def overshoot_def)
  ultimately have "scanResult (fst (handleScan JSON_parse_table (scanner_with photo) ?w)) = Some overshoot"
    using handleScan_accepts[OF f] by simp
  moreover have "\<not> spec_AnalysisResult overshoot"
    by (simp add: spec_AnalysisResult_def overshoot_def)
  ultimately show ?thesis by simp
qed

text \<open>
  C9. When the image cannot be read, \<^verbatim>\<open>handleScan\<close> fails with the reader's error
  before any request is sent (the log of requests is unchanged), and this failure,
  like every failure of the \<^verbatim>\<open>try\<close> block, reaches the user as the one generic
  message; the raw error only goes to the console.
\<close>

theorem handleScan_unreadable_image:
  assumes "scan_file st = Some f"
  shows "(\<forall>e. readAsDataURL f = Inl e \<longrightarrow>
            handleScan JSON_parse st w =
              (st\<lparr>scan_loading := False, scanResult := None, scan_error := Some analysis_failed\<rparr>,
               w\<lparr>console := console w @ [(''Scanning Error:'', e)]\<rparr>) \<and>
            requests (snd (handleScan JSON_parse st w)) = requests w) \<and>
         (\<forall>err w'. handleScan_try JSON_parse f w = (Inl err, w') \<longrightarrow>
            handleScan JSON_parse st w =
              (st\<lparr>scan_loading := False, scanResult := None, scan_error := Some analysis_failed\<rparr>,
               w'\<lparr>console := console w' @ [(''Scanning Error:'', err)]\<rparr>))"
  using assms
  by (simp add: handleScan_def handleScan_try_def fileToBase64_def)

theorem handleScan_unreadable_image_witness:
  "scan_file (scanner_with unreadable) = Some unreadable \<and>
   readAsDataURL unreadable = Inl ReaderError \<and>
   scan_error (fst (handleScan JSON_parse_table (scanner_with unreadable) (quiet_world net_down))) = Some analysis_failed \<and>
   scanResult (fst (handleScan JSON_parse_table (scanner_with unreadable) (quiet_world net_down))) = None \<and>
   requests (snd (handleScan JSON_parse_table (scanner_with unreadable) (quiet_world net_down))) = [] \<and>
   console (snd (handleScan JSON_parse_table (scanner_with unreadable) (quiet_world net_down))) = [(''Scanning Error:'', ReaderError)]"
proof -
  have f: "scan_file (scanner_with unreadable) = Some unreadable" by (simp add: scanner_with_def)
  have r: "readAsDataURL unreadable = Inl ReaderError" by (simp add: unreadable_def)
  show ?thesis
    using handleScan_unreadable_image [OF f, of JSON_parse_table "quiet_world net_down"] f r
    by (simp add: quiet_world_def)
qed

section \<open>ChatOrchestrator\<close>

text \<open>
  C5. When all five attempts of the inference call fail and the store accepts the
  writes, \<^verbatim>\<open>handleSend\<close> resolves and the conversation gains exactly two turns: the
  user's trimmed message, then a model turn holding the apology. Nothing else in the
  store changes.
\<close>

theorem handleSend_inference_failure:
  assumes "userId st = Some uid" and "uid \<noteq> []" and "db st" and "\<not> loading st"
    and "trim (input st) \<noteq> []"
    and "\<forall>j<5. attempt_fails (network w (length (requests w) + j))"
    and "store_fault w (writes w) = None" and "store_fault w (Suc (writes w)) = None"
  shows "\<exists>w'. handleSend appId st w = (Inr (), st\<lparr>input := [], loading := False\<rparr>, w') \<and>
           collections w' = (collections w)
             (CHAT_COLLECTION appId uid := collections w (CHAT_COLLECTION appId uid) @
                [\<lparr>doc_id = writes w, role = ''user'', text_field = JString (trim (input st)),
                  timestamp = clock w\<rparr>,
                 \<lparr>doc_id = Suc (writes w), role = ''model'', text_field = JString apology,
                  timestamp = Suc (clock w)\<rparr>]) \<and>
           length (requests w') = length (requests w) + 5"
proof -
  let ?path = "CHAT_COLLECTION appId uid"
  let ?um = "trim (input st)"
  obtain w0 where user: "addDoc ?path (''user'', JString ?um) w = (Inr (), w0)"
    and w0: "collections w0 = (collections w)(?path := collections w ?path @
              [\<lparr>doc_id = writes w, role = ''user'', text_field = JString ?um, timestamp = clock w\<rparr>])"
      "writes w0 = Suc (writes w)" "clock w0 = Suc (clock w)"
      "store_fault w0 = store_fault w" "network w0 = network w" "requests w0 = requests w"
    using addDoc_accepted[OF assms(7), of ?path "''user''" "JString ?um"] by blast
  obtain p where cg: "callGeminiApi ?path st ?um w0 =
     (case retryWithBackoff (apiCall p) 5 w0 of
        (Inl error, w1) \<Rightarrow> callGeminiApi_catch ?path error w1
      | (Inr result, w1) \<Rightarrow>
          (case candidate_text (awaited result) of
             Inl error \<Rightarrow> callGeminiApi_catch ?path error w1
           | Inr botResponse \<Rightarrow>
               if truthy botResponse then
                 (case addDoc ?path (''model'', botResponse) w1 of
                    (Inl error, w2) \<Rightarrow> callGeminiApi_catch ?path error w2
                  | (Inr u, w2) \<Rightarrow> (Inr (), w2))
               else (Inr (), w1)))"
    using callGeminiApi_payload by blast
  have "\<And>j. j < 5 \<Longrightarrow> attempt_fails (network w0 (length (requests w0) + j))"
    using assms(6) w0 by simp
  then obtain e w1 where retry: "retryWithBackoff (apiCall p) 5 w0 = (Inl e, w1)"
    and w1: "collections w1 = collections w0" "store_fault w1 = store_fault w0"
      "writes w1 = writes w0" "clock w1 = clock w0" "requests w1 = requests w0 @ replicate 5 p"
    using retry_apiCall_exhausted[of w0 p] by blast
  let ?w1 = "w1\<lparr>console := console w1 @ [(''Gemini API Error:'', e)]\<rparr>"
  have "store_fault ?w1 (writes ?w1) = None"
    using assms(8) w0 w1 by simp
  then obtain w2 where bot: "addDoc ?path (''model'', JString apology) ?w1 = (Inr (), w2)"
    and w2: "collections w2 = (collections ?w1)(?path := collections ?w1 ?path @
              [\<lparr>doc_id = writes ?w1, role = ''model'', text_field = JString apology,
                timestamp = clock ?w1\<rparr>])"
      "requests w2 = requests ?w1"
    using addDoc_accepted[of ?w1 ?path "''model''" "JString apology"] by blast
  have "callGeminiApi ?path st ?um w0 = (Inr (), w2)"
    using cg retry bot by (simp add: callGeminiApi_catch_def)
  then have "handleSend appId st w = (Inr (), st\<lparr>input := [], loading := False\<rparr>, w2)"
    using assms(1-5) user by (simp add: handleSend_def Let_def)
  moreover have "collections w2 = (collections w)
             (?path := collections w ?path @
                [\<lparr>doc_id = writes w, role = ''user'', text_field = JString ?um,
                  timestamp = clock w\<rparr>,
                 \<lparr>doc_id = Suc (writes w), role = ''model'', text_field = JString apology,
                  timestamp = Suc (clock w)\<rparr>])"
    using w2 w1 w0 by simp
  moreover have "length (requests w2) = length (requests w) + 5"
    using w2 w1 w0 by simp
  ultimately show ?thesis by blast
qed

theorem handleSend_inference_failure_witness:
  "userId (bot_typing ''  my fern is yellow  '') = Some ''u1'' \<and>
   fst (handleSend ''garden'' (bot_typing ''  my fern is yellow  '') (quiet_world net_down)) = Inr () \<and>
   map role (collections (snd (snd (handleSend ''garden'' (bot_typing ''  my fern is yellow  '')
       (quiet_world net_down)))) (CHAT_COLLECTION ''garden'' ''u1'')) = [''user'', ''model''] \<and>
   map text_field (collections (snd (snd (handleSend ''garden'' (bot_typing ''  my fern is yellow  '')
       (quiet_world net_down)))) (CHAT_COLLECTION ''garden'' ''u1'')) =
     [JString ''my fern is yellow'', JString apology] \<and>
   length (requests (snd (snd (handleSend ''garden'' (bot_typing ''  my fern is yellow  '')
       (quiet_world net_down))))) = 5"
proof -
  let ?st = "bot_typing ''  my fern is yellow  ''"
  let ?w = "quiet_world net_down"
  have g: "userId ?st = Some ''u1''" "''u1'' \<noteq> []" "db ?st" "\<not> loading ?st" "trim (input ?st) \<noteq> []"
    by (simp_all add: bot_typing_def trim_examples)
  have n: "\<forall>j<5. attempt_fails (network ?w (length (requests ?w) + j))"
    by (simp add: quiet_world_def net_down_def)
  have s: "store_fault ?w (writes ?w) = None" "store_fault ?w (Suc (writes ?w)) = None"
    by (simp_all add: quiet_world_def)
  obtain w' where "handleSend ''garden'' ?st ?w = (Inr (), ?st\<lparr>input := [], loading := False\<rparr>, w')"
    and "collections w' = (collections ?w)
             (CHAT_COLLECTION ''garden'' ''u1'' := collections ?w (CHAT_COLLECTION ''garden'' ''u1'') @
                [\<lparr>doc_id = writes ?w, role = ''user'', text_field = JString (trim (input ?st)),
                  timestamp = clock ?w\<rparr>,
                 \<lparr>doc_id = Suc (writes ?w), role = ''model'', text_field = JString apology,
                  timestamp = Suc (clock ?w)\<rparr>])"
    and "length (requests w') = length (requests ?w) + 5"
    using handleSend_inference_failure [OF g n s, of "''garden''"] by blast
  then show ?thesis
    using g by (simp add: quiet_world_def bot_typing_def trim_examples)
qed

text \<open>
  C6, as amended. When the inference call succeeds (after \<open>k < 5\<close> failed attempts)
  with an envelope whose first candidate's text is \<open>t\<close>, \<^verbatim>\<open>handleSend\<close> appends
  the user's turn and then exactly one model turn with text \<open>t\<close> if \<open>t\<close> is truthy
  (a non-empty string), and no model turn if \<open>t\<close> is empty or absent.
\<close>

theorem handleSend_saves_nonempty_reply:
  assumes "userId st = Some uid" and "uid \<noteq> []" and "db st" and "\<not> loading st"
    and "trim (input st) \<noteq> []"
    and "k < 5"
    and "\<forall>j<k. attempt_fails (network w (length (requests w) + j))"
    and "network w (length (requests w) + k) = Inr r" and "ok r" and "json r = Inr body"
    and "candidate_text body = Inr t"
    and "store_fault w (writes w) = None" and "store_fault w (Suc (writes w)) = None"
  shows "\<exists>w'. handleSend appId st w = (Inr (), st\<lparr>input := [], loading := False\<rparr>, w') \<and>
           collections w' = (collections w)
             (CHAT_COLLECTION appId uid := collections w (CHAT_COLLECTION appId uid) @
                [\<lparr>doc_id = writes w, role = ''user'', text_field = JString (trim (input st)),
                  timestamp = clock w\<rparr>] @
                (if truthy t
                 then [\<lparr>doc_id = Suc (writes w), role = ''model'', text_field = t,
                        timestamp = Suc (clock w)\<rparr>]
                 else []))"
  using assms by (rule handleSend_answered)

theorem handleSend_saves_nonempty_reply_witness:
  "candidate_text (envelope (JString ''Water it weekly.'')) = Inr (JString ''Water it weekly.'') \<and>
   fst (handleSend ''garden'' (bot_typing ''hello'')
       (quiet_world (net_recovers 1 (envelope (JString ''Water it weekly.''))))) = Inr () \<and>
   map role (collections (snd (snd (handleSend ''garden'' (bot_typing ''hello'')
       (quiet_world (net_recovers 1 (envelope (JString ''Water it weekly.'')))))))
     (CHAT_COLLECTION ''garden'' ''u1'')) = [''user'', ''model''] \<and>
   map text_field (collections (snd (snd (handleSend ''garden'' (bot_typing ''hello'')
       (quiet_world (net_recovers 1 (envelope (JString ''Water it weekly.'')))))))
     (CHAT_COLLECTION ''garden'' ''u1'')) = [JString ''hello'', JString ''Water it weekly.'']"
proof -
  let ?st = "bot_typing ''hello''"
  let ?body = "envelope (JString ''Water it weekly.'')"
  let ?w = "quiet_world (net_recovers 1 ?body)"
  have g: "userId ?st = Some ''u1''" "''u1'' \<noteq> []" "db ?st" "\<not> loading ?st" "trim (input ?st) \<noteq> []"
    by (simp_all add: bot_typing_def trim_examples)
  have k: "(1::nat) < 5" by simp
  have n: "\<forall>j<1. attempt_fails (network ?w (length (requests ?w) + j))"
    "network ?w (length (requests ?w) + 1) = Inr \<lparr>ok = True, status = 200, json = Inr ?body\<rparr>"
    "ok \<lparr>ok = True, status = 200, json = Inr ?body\<rparr>"
    "json \<lparr>ok = True, status = 200, json = Inr ?body\<rparr> = Inr ?body"
    by (simp_all add: quiet_world_def net_recovers_def)
  have s: "store_fault ?w (writes ?w) = None" "store_fault ?w (Suc (writes ?w)) = None"
    by (simp_all add: quiet_world_def)
  obtain w' where "handleSend ''garden'' ?st ?w = (Inr (), ?st\<lparr>input := [], loading := False\<rparr>, w')"
    and "collections w' = (collections ?w)
             (CHAT_COLLECTION ''garden'' ''u1'' := collections ?w (CHAT_COLLECTION ''garden'' ''u1'') @
                [\<lparr>doc_id = writes ?w, role = ''user'', text_field = JString (trim (input ?st)),
                  timestamp = clock ?w\<rparr>] @
                (if truthy (JString ''Water it weekly.'')
                 then [\<lparr>doc_id = Suc (writes ?w), role = ''model'', text_field = JString ''Water it weekly.'',
                        timestamp = Suc (clock ?w)\<rparr>]
                 else []))"
    using handleSend_saves_nonempty_reply [OF g k n candidate_text_envelope s, of "''garden''"] by blast
  then show ?thesis
    by (simp add: quiet_world_def bot_typing_def trim_examples candidate_text_envelope)
qed

text \<open>
  The claim C6 as first stated fails: an envelope whose text is the empty string is a
  successful answer, yet the conversation gains the user's turn only.
\<close>

theorem handleSend_drops_empty_reply:
  "candidate_text (envelope (JString [])) = Inr (JString []) \<and>
   map role (collections (snd (snd (handleSend ''garden'' (bot_typing ''hello'')
       (quiet_world (net_recovers 0 (envelope (JString [])))))))
     (CHAT_COLLECTION ''garden'' ''u1'')) = [''user'']"
  using handleSend_first_answer [OF candidate_text_envelope [of "JString []"]]
  by (simp add: candidate_text_envelope)

section \<open>ConversationLog\<close>

text \<open>
  C1 on a conversation of 60 turns, numbered 0 to 59 in the order they were appended:
  the view the listener delivers holds the turns 0 to 49, the fifty oldest. The ten
  most recent turns, 50 to 59, are missing from it.
\<close>

theorem onSnapshot_after_60_turns:
  "map doc_id (collections (append_turns (CHAT_COLLECTION ''garden'' ''u1'')
        (replicate 60 (JString ''hi'')) (quiet_world net_down)) (CHAT_COLLECTION ''garden'' ''u1'')) =
     [0..<60] \<and>
   map doc_id (messages (onSnapshot ''garden'' (bot_typing [])
      (append_turns (CHAT_COLLECTION ''garden'' ''u1'')
        (replicate 60 (JString ''hi'')) (quiet_world net_down)))) =
     [0..<50]"
proof -
  have "list_all truthy (replicate 60 (JString ''hi''))"
    by (simp add: list_all_iff)
  from chatHistory_fresh_log[OF this, of "CHAT_COLLECTION ''garden'' ''u1''" net_down]
  show ?thesis
    by (simp add: onSnapshot_def bot_typing_def del: upt_rec_numeral)
qed

end
